theory Spec2Isabelle
  imports Complex_Main
begin

section \<open>The data-cleaning pipeline of \<open>main.py\<close>\<close>

text \<open>
  \<open>DataAnalysisTool\<close> keeps one pandas DataFrame, \<open>self.data\<close>, and its methods
  \<open>identify_field_types\<close>, \<open>handle_missing_values\<close>, \<open>remove_duplicates\<close>,
  \<open>detect_outliers\<close> and \<open>perform_statistical_analysis\<close> read or mutate it. Each method
  is embedded as a function of the DataFrame (and of what the modal dialogs return),
  giving back the DataFrame it leaves behind and the exception it raises, if any.

  Conventions of the embedding:
  \<^item> A DataFrame is the list of its named columns, in column order. Column names are
    unique in pandas' loaders, so \<open>self.data[col]\<close> inside \<open>for col in self.data.columns\<close>
    is the column under iteration.
  \<^item> The columns are those of dtype \<open>int64\<close>, \<open>float64\<close> and \<open>object\<close>. An \<open>int64\<close>
    column has no missing cell; a missing \<open>float64\<close> cell is NaN and a missing
    \<open>object\<close> cell is None, both written \<open>None\<close> here. The cells of an \<open>object\<close> column
    are text.
  \<^item> Numbers are exact reals: rounding of binary floating point and infinite cell
    values are not part of the model. NaN and the infinities that a division by zero
    produces are modelled where the code meets them (\<open>score\<close> below).
  \<^item> \<open>series.fillna(v, inplace=True)\<close> on \<open>self.data[col]\<close> writes through to the
    DataFrame, as it does in the pandas versions the program was written for.
\<close>

subsection \<open>Columns and DataFrames\<close>

datatype py_error = ValueError | IndexError | KeyError | TypeError

datatype dtype = Int64 | Float64 | Object | Datetime64 | Other

datatype column =
    IntCol "int list"
  | FloatCol "real option list"
  | ObjectCol "string option list"

type_synonym dataframe = "(string \<times> column) list"

fun dtype_of :: "column \<Rightarrow> dtype" where
  "dtype_of (IntCol _) = Int64"
| "dtype_of (FloatCol _) = Float64"
| "dtype_of (ObjectCol _) = Object"

fun col_length :: "column \<Rightarrow> nat" where
  "col_length (IntCol xs) = length xs"
| "col_length (FloatCol xs) = length xs"
| "col_length (ObjectCol xs) = length xs"

text \<open>The test \<open>self.data[col].dtype in ['int64', 'float64']\<close>.\<close>

definition is_numeric :: "column \<Rightarrow> bool" where
  "is_numeric c = (dtype_of c = Int64 \<or> dtype_of c = Float64)"

text \<open>The cells of a numeric column as floats, which is how pandas' reductions read them.\<close>

fun float_values :: "column \<Rightarrow> real option list" where
  "float_values (IntCol xs) = map (\<lambda>i. Some (real_of_int i)) xs"
| "float_values (FloatCol xs) = xs"
| "float_values (ObjectCol xs) = []"

subsection \<open>The pandas Series operations the program calls\<close>

fun dropna :: "'a option list \<Rightarrow> 'a list" where
  "dropna [] = []"
| "dropna (None # xs) = dropna xs"
| "dropna (Some x # xs) = x # dropna xs"

text \<open>\<open>Series.nunique()\<close>: the number of distinct non-null values.\<close>

definition nunique :: "'a option list \<Rightarrow> nat" where
  "nunique xs = length (remdups (dropna xs))"

text \<open>\<open>Series.mean()\<close> skips NaN; the mean of no value is NaN.\<close>

definition mean :: "real option list \<Rightarrow> real option" where
  "mean xs = (let v = dropna xs in
     if v = [] then None else Some (sum_list v / real (length v)))"

text \<open>\<open>Series.median()\<close>: the middle of the sorted non-null values, the average of the two
  middle ones when their number is even, NaN when there is none.\<close>

definition median :: "real option list \<Rightarrow> real option" where
  "median xs = (let v = sort (dropna xs); n = length v in
     if n = 0 then None
     else if odd n then Some (v ! (n div 2))
     else Some ((v ! (n div 2 - 1) + v ! (n div 2)) / 2))"

text \<open>\<open>Series.mode()\<close>: the non-null values that occur most often, sorted ascending
  (pandas sorts the result of its hash-table pass).\<close>

definition max_count :: "real list \<Rightarrow> nat" where
  "max_count v = foldr max (map (count_list v) v) 0"

definition mode :: "real option list \<Rightarrow> real list" where
  "mode xs = (let v = dropna xs in
     sort (remdups (filter (\<lambda>x. count_list v x = max_count v) v)))"

text \<open>\<open>.iloc[0]\<close> raises IndexError on an empty Series.\<close>

fun iloc0 :: "'a list \<Rightarrow> py_error + 'a" where
  "iloc0 [] = Inl IndexError"
| "iloc0 (x # _) = Inr x"

text \<open>\<open>Series.std()\<close>: the sample standard deviation, with denominator \<open>n - 1\<close> (pandas'
  default \<open>ddof=1\<close>), over the non-null values; NaN when there are fewer than two.\<close>

definition sum_sq_dev :: "real list \<Rightarrow> real" where
  "sum_sq_dev v = (let avg = sum_list v / real (length v) in
     sum_list (map (\<lambda>x. (avg - x)\<^sup>2) v))"

definition std :: "real option list \<Rightarrow> real option" where
  "std xs = (let v = dropna xs in
     if length v \<le> 1 then None
     else Some (sqrt (sum_sq_dev v / real (length v - 1))))"

text \<open>\<open>Series.fillna(value)\<close>: every null cell becomes \<open>value\<close>; filling with NaN leaves
  the nulls. An \<open>int64\<close> column has no null to fill.\<close>

fun fill_cell :: "'a option \<Rightarrow> 'a option \<Rightarrow> 'a option" where
  "fill_cell v None = v"
| "fill_cell v (Some x) = Some x"

fun fillna :: "real option \<Rightarrow> column \<Rightarrow> column" where
  "fillna v (IntCol xs) = IntCol xs"
| "fillna v (FloatCol xs) = FloatCol (map (fill_cell v) xs)"
| "fillna v (ObjectCol xs) = ObjectCol xs"

fun fillna_str :: "string \<Rightarrow> column \<Rightarrow> column" where
  "fillna_str s (ObjectCol xs) = ObjectCol (map (fill_cell (Some s)) xs)"
| "fillna_str s c = c"

subsection \<open>\<open>identify_field_types\<close>\<close>

text \<open>
  \<^verbatim>\<open>
  field_types = {}
  for column in self.data.columns:
      dtype = self.data[column].dtype
      if dtype == 'object':
          unique_values = self.data[column].nunique()
          if unique_values <= 10:
              field_types[column] = 'categorical'
          else:
              field_types[column] = 'string'
      elif dtype in ['int64', 'float64']:
          field_types[column] = 'numeric'
      elif dtype == 'datetime64[ns]':
          field_types[column] = 'datetime'
  \<close>
  The dispatch is on the dtype and the distinct count; a column of any other dtype
  gets no entry. \<open>field_types\<close> is the dictionary the method builds and prints.
\<close>

definition field_type :: "dtype \<Rightarrow> nat \<Rightarrow> string option" where
  "field_type dt unique_values =
     (if dt = Object then
        (if unique_values \<le> 10 then Some ''categorical'' else Some ''string'')
      else if dt = Int64 \<or> dt = Float64 then Some ''numeric''
      else if dt = Datetime64 then Some ''datetime''
      else None)"

fun unique_values_of :: "column \<Rightarrow> nat" where
  "unique_values_of (IntCol xs) = nunique (map Some xs)"
| "unique_values_of (FloatCol xs) = nunique xs"
| "unique_values_of (ObjectCol xs) = nunique xs"

fun identify_loop :: "(string \<rightharpoonup> string) \<Rightarrow> dataframe \<Rightarrow> (string \<rightharpoonup> string)" where
  "identify_loop field_types [] = field_types"
| "identify_loop field_types ((name, c) # cols) =
     (case field_type (dtype_of c) (unique_values_of c) of
        Some t \<Rightarrow> identify_loop (field_types(name \<mapsto> t)) cols
      | None \<Rightarrow> identify_loop field_types cols)"

definition identify_field_types :: "dataframe \<Rightarrow> (string \<rightharpoonup> string)" where
  "identify_field_types data = identify_loop Map.empty data"

subsection \<open>\<open>handle_missing_values\<close>\<close>

text \<open>
  \<^verbatim>\<open>
  methods = ['mean', 'median', 'mode', 'custom']
  method, ok = QInputDialog.getItem(...)
  if ok:
      if method == 'custom':
          fill_value, ok = QInputDialog.getText(...)
          if ok:
              for col in self.data.columns:
                  if self.data[col].dtype in ['int64', 'float64']:
                      self.data[col].fillna(float(fill_value), inplace=True)
                  else:
                      self.data[col].fillna(str(fill_value), inplace=True)
      else:
          for col in self.data.columns:
              if self.data[col].dtype in ['int64', 'float64']:
                  if method == 'mean':
                      self.data[col].fillna(self.data[col].mean(), inplace=True)
                  elif method == 'median':
                      self.data[col].fillna(self.data[col].median(), inplace=True)
                  elif method == 'mode':
                      mode_val = self.data[col].mode().iloc[0]
                      self.data[col].fillna(mode_val, inplace=True)
  \<close>
  The two dialogs' answers are arguments: \<open>(method, ok)\<close> and \<open>(fill_value, ok2)\<close>.
  Python's \<open>float\<close> is the argument \<open>py_float\<close>: \<open>None\<close> where \<open>float(s)\<close> raises ValueError,
  \<open>Some None\<close> where it returns NaN, \<open>Some (Some r)\<close> otherwise. No exception is caught
  in the method or in its caller \<open>clean_data\<close>, so an exception ends the loop and leaves
  the DataFrame as the columns already visited have made it: the result is the exception,
  if any, and the DataFrame.
\<close>

definition fill_custom :: "(string \<Rightarrow> real option option) \<Rightarrow> string \<Rightarrow> column \<Rightarrow> py_error + column" where
  "fill_custom py_float fill_value c =
     (if is_numeric c then
        (case py_float fill_value of
           None \<Rightarrow> Inl ValueError
         | Some v \<Rightarrow> Inr (fillna v c))
      else Inr (fillna_str fill_value c))"

definition fill_statistic :: "string \<Rightarrow> column \<Rightarrow> py_error + column" where
  "fill_statistic method c =
     (if is_numeric c then
        (if method = ''mean'' then Inr (fillna (mean (float_values c)) c)
         else if method = ''median'' then Inr (fillna (median (float_values c)) c)
         else if method = ''mode'' then
           (case iloc0 (mode (float_values c)) of
              Inl e \<Rightarrow> Inl e
            | Inr mode_val \<Rightarrow> Inr (fillna (Some mode_val) c))
         else Inr c)
      else Inr c)"

text \<open>\<open>for col in self.data.columns: body\<close>, each pass replacing its own column in place.\<close>

fun for_columns :: "(column \<Rightarrow> py_error + column) \<Rightarrow> dataframe \<Rightarrow> py_error option \<times> dataframe" where
  "for_columns body [] = (None, [])"
| "for_columns body ((name, c) # cols) =
     (case body c of
        Inl e \<Rightarrow> (Some e, (name, c) # cols)
      | Inr c' \<Rightarrow>
          (case for_columns body cols of (e, cols') \<Rightarrow> (e, (name, c') # cols')))"

definition handle_missing_values ::
  "(string \<Rightarrow> real option option) \<Rightarrow> string \<times> bool \<Rightarrow> string \<times> bool \<Rightarrow> dataframe
     \<Rightarrow> py_error option \<times> dataframe" where
  "handle_missing_values py_float sel txt data =
     (case sel of (method, ok) \<Rightarrow>
        if ok then
          (if method = ''custom'' then
             (case txt of (fill_value, ok2) \<Rightarrow>
                if ok2 then for_columns (fill_custom py_float fill_value) data
                else (None, data))
           else for_columns (fill_statistic method) data)
        else (None, data))"

subsection \<open>\<open>remove_duplicates\<close>\<close>

text \<open>
  \<^verbatim>\<open>
  strategy = ['first', 'last', 'all']
  strat, ok = QInputDialog.getItem(...)
  if ok:
      if strat == 'all':
          self.data.drop_duplicates(inplace=True)
      else:
          self.data.drop_duplicates(keep=strat, inplace=True)
  \<close>
  \<open>DataFrame.drop_duplicates(keep)\<close> compares whole rows (a missing cell equals a missing
  cell), marks with \<open>keep='first'\<close>, its default, every row that occurred before, with
  \<open>keep='last'\<close> every row that occurs again later, and keeps the unmarked rows in their
  order. Any other string for \<open>keep\<close> is a ValueError.
\<close>

datatype cell = IntCell int | FloatCell "real option" | ObjectCell "string option"

fun cells_of :: "column \<Rightarrow> cell list" where
  "cells_of (IntCol xs) = map IntCell xs"
| "cells_of (FloatCol xs) = map FloatCell xs"
| "cells_of (ObjectCol xs) = map ObjectCell xs"

fun rows_of_cols :: "cell list list \<Rightarrow> cell list list" where
  "rows_of_cols [] = []"
| "rows_of_cols [c] = map (\<lambda>x. [x]) c"
| "rows_of_cols (c # cs) = map2 (#) c (rows_of_cols cs)"

definition rows_of :: "dataframe \<Rightarrow> cell list list" where
  "rows_of data = rows_of_cols (map (\<lambda>(name, c). cells_of c) data)"

fun duplicated_first :: "'a list \<Rightarrow> 'a list \<Rightarrow> bool list" where
  "duplicated_first seen [] = []"
| "duplicated_first seen (r # rs) = (r \<in> set seen) # duplicated_first (r # seen) rs"

fun duplicated_last :: "'a list \<Rightarrow> bool list" where
  "duplicated_last [] = []"
| "duplicated_last (r # rs) = (r \<in> set rs) # duplicated_last rs"

text \<open>Boolean indexing \<open>df[mask]\<close>: the rows whose mask is True, in every column.\<close>

definition mask_list :: "bool list \<Rightarrow> 'a list \<Rightarrow> 'a list" where
  "mask_list m xs = map snd (filter fst (zip m xs))"

fun mask_col :: "bool list \<Rightarrow> column \<Rightarrow> column" where
  "mask_col m (IntCol xs) = IntCol (mask_list m xs)"
| "mask_col m (FloatCol xs) = FloatCol (mask_list m xs)"
| "mask_col m (ObjectCol xs) = ObjectCol (mask_list m xs)"

definition select_rows :: "bool list \<Rightarrow> dataframe \<Rightarrow> dataframe" where
  "select_rows m data = map (\<lambda>(name, c). (name, mask_col m c)) data"

definition drop_duplicates :: "string \<Rightarrow> dataframe \<Rightarrow> py_error + dataframe" where
  "drop_duplicates keep data =
     (if keep = ''first'' then
        Inr (select_rows (map Not (duplicated_first [] (rows_of data))) data)
      else if keep = ''last'' then
        Inr (select_rows (map Not (duplicated_last (rows_of data))) data)
      else Inl ValueError)"

definition remove_duplicates :: "string \<times> bool \<Rightarrow> dataframe \<Rightarrow> py_error + dataframe" where
  "remove_duplicates sel data =
     (case sel of (strat, ok) \<Rightarrow>
        if ok then
          (if strat = ''all'' then drop_duplicates ''first'' data
           else drop_duplicates strat data)
        else Inr data)"

subsection \<open>\<open>detect_outliers\<close>\<close>






subsection \<open>\<open>perform_statistical_analysis\<close>\<close>

text \<open>
  \<^verbatim>\<open>
  stats = self.data.describe()
  \<close>
  \<open>DataFrame.describe()\<close> with no argument describes the numeric columns only, when
  the DataFrame has one, and every column otherwise. A numeric column gets count, mean,
  std, min, the 25%, 50% and 75% quantiles (linear interpolation) and max; a column
  of text gets count, unique, top and freq: the number of non-null cells, the number of
  distinct values, the most frequent value and how often it occurs. A DataFrame with no
  column is a ValueError.
\<close>

datatype summary =
    Numeric_summary nat "real option" "real option" "real option"
      "real option" "real option" "real option" "real option"
  | Categorical_summary nat nat "string option" "nat option"

definition count :: "'a option list \<Rightarrow> nat" where
  "count xs = length (dropna xs)"

definition min_s :: "real option list \<Rightarrow> real option" where
  "min_s xs = (case dropna xs of [] \<Rightarrow> None | x # v \<Rightarrow> Some (fold min v x))"

definition max_s :: "real option list \<Rightarrow> real option" where
  "max_s xs = (case dropna xs of [] \<Rightarrow> None | x # v \<Rightarrow> Some (fold max v x))"

definition quantile :: "real \<Rightarrow> real option list \<Rightarrow> real option" where
  "quantile q xs = (let v = sort (dropna xs); n = length v in
     if n = 0 then None
     else (let pos = q * real (n - 1); lo = nat \<lfloor>pos\<rfloor>; hi = nat \<lceil>pos\<rceil> in
       Some (v ! lo + (pos - real lo) * (v ! hi - v ! lo))))"

text \<open>\<open>Series.value_counts()\<close>: the distinct non-null values with their counts, the most
  frequent first, values of equal count in the order of their first occurrence.\<close>

definition value_counts :: "'a option list \<Rightarrow> ('a \<times> nat) list" where
  "value_counts xs = (let v = dropna xs in
     sort_key (\<lambda>p. - int (snd p)) (map (\<lambda>x. (x, count_list v x)) (rev (remdups (rev v)))))"

definition describe_numeric_1d :: "real option list \<Rightarrow> summary" where
  "describe_numeric_1d xs =
     Numeric_summary (count xs) (mean xs) (std xs) (min_s xs)
       (quantile (1/4) xs) (quantile (1/2) xs) (quantile (3/4) xs) (max_s xs)"

definition describe_categorical_1d :: "string option list \<Rightarrow> summary" where
  "describe_categorical_1d xs =
     (case value_counts xs of
        [] \<Rightarrow> Categorical_summary (count xs) 0 None None
      | (top_value, freq) # rest \<Rightarrow>
          Categorical_summary (count xs) (length ((top_value, freq) # rest))
            (Some top_value) (Some freq))"

fun describe_1d :: "column \<Rightarrow> summary" where
  "describe_1d (ObjectCol xs) = describe_categorical_1d xs"
| "describe_1d c = describe_numeric_1d (float_values c)"

definition describe :: "dataframe \<Rightarrow> py_error + (string \<times> summary) list" where
  "describe data =
     (if data = [] then Inl ValueError
      else (let numeric = filter (\<lambda>(name, c). is_numeric c) data in
        if numeric \<noteq> [] then Inr (map (\<lambda>(name, c). (name, describe_1d c)) numeric)
        else Inr (map (\<lambda>(name, c). (name, describe_1d c)) data)))"

definition perform_statistical_analysis :: "dataframe \<Rightarrow> py_error + (string \<times> summary) list" where
  "perform_statistical_analysis data = describe data"

section \<open>Properties\<close>

subsection \<open>The loop over the columns\<close>

lemma for_columns_names: "map fst (snd (for_columns body data)) = map fst data"
  by (induction data) (auto split: sum.splits prod.splits)

lemma for_columns_total:
  assumes "\<And>c. body c = Inr (f c)"
  shows "for_columns body data = (None, map (\<lambda>(name, c). (name, f c)) data)"
  by (induction data) (auto simp: assms)

lemma for_columns_fixed:
  "i < length data \<Longrightarrow> data ! i = (name, c) \<Longrightarrow> body c = Inr c
     \<Longrightarrow> snd (for_columns body data) ! i = (name, c)"
proof (induction data arbitrary: i)
  case Nil
  then show ?case by simp
next
  case (Cons p data)
  obtain n0 c0 where p: "p = (n0, c0)" by (cases p)
  show ?case
  proof (cases "body c0")
    case (Inl e)
    with Cons.prems p show ?thesis by simp
  next
    case (Inr c0')
    show ?thesis
    proof (cases i)
      case 0
      with Cons.prems p Inr show ?thesis by (simp split: prod.splits)
    next
      case (Suc k)
      with Cons.prems have "snd (for_columns body data) ! k = (name, c)"
        by (intro Cons.IH) simp_all
      with Suc p Inr show ?thesis by (auto split: prod.splits)
    qed
  qed
qed


lemma for_columns_raises:
  assumes "\<forall>p \<in> set pre. body (snd p) = Inr (f (snd p))" and "body c = Inl e"
  shows "for_columns body (pre @ (name, c) # post)
     = (Some e, map (\<lambda>(n, x). (n, f x)) pre @ (name, c) # post)"
  using assms by (induction pre) (auto)

lemma for_columns_error_kind:
  assumes "\<And>c e'. body c = Inl e' \<Longrightarrow> e' = e" and "(name, c) \<in> set data" and "body c = Inl e"
  shows "fst (for_columns body data) = Some e"
  using assms(2)
proof (induction data)
  case Nil
  then show ?case by simp
next
  case (Cons p data)
  obtain n0 c0 where p: "p = (n0, c0)" by (cases p)
  show ?case
  proof (cases "body c0")
    case (Inl e')
    with assms(1) have "e' = e" by blast
    with Inl p show ?thesis by simp
  next
    case (Inr c0')
    with Cons.prems p assms(3) have "(name, c) \<in> set data" by auto
    with Cons.IH have "fst (for_columns body data) = Some e" by simp
    with Inr p show ?thesis by (auto split: prod.splits)
  qed
qed

subsection \<open>Missing values: exceptions\<close>

lemma fill_statistic_error: "fill_statistic method c = Inl e \<Longrightarrow> e = IndexError"
  by (cases "mode (float_values c)") (auto simp: fill_statistic_def split: if_splits)

lemma mode_Nil: "dropna xs = [] \<Longrightarrow> mode xs = []"
  by (simp add: mode_def)

lemma fill_custom_object: "\<not> is_numeric c \<Longrightarrow> fill_custom py_float v c = Inr (fillna_str v c)"
  by (simp add: fill_custom_def)

text \<open>
  Claim C9. With the method \<open>mode\<close>, a DataFrame that has a numeric column whose cells
  are all null (or that has no row) makes \<open>handle_missing_values\<close> raise IndexError:
  the mode of no value is the empty Series, and \<open>.iloc[0]\<close> is taken unconditionally.
  Whatever else the DataFrame holds, the stage ends with that exception.
\<close>

theorem mode_fill_all_null_raises:
  assumes "(name, c) \<in> set data" and "is_numeric c" and "dropna (float_values c) = []"
  shows "fst (handle_missing_values py_float (''mode'', True) txt data) = Some IndexError"
proof -
  from assms(2,3) have "fill_statistic ''mode'' c = Inl IndexError"
    by (simp add: fill_statistic_def mode_Nil)
  with assms(1) have "fst (for_columns (fill_statistic ''mode'') data) = Some IndexError"
    by (intro for_columns_error_kind[where name = name and c = c]) (auto dest: fill_statistic_error)
  then show ?thesis by (simp add: handle_missing_values_def)
qed

theorem mode_fill_all_null_raises_witness:
  "(''x'', FloatCol [None, None]) \<in> set [(''s'', ObjectCol [None, Some ''a'']), (''x'', FloatCol [None, None])]
   \<and> is_numeric (FloatCol [None, None]) \<and> dropna (float_values (FloatCol [None, None])) = []
   \<and> fst (handle_missing_values (\<lambda>s. None) (''mode'', True) (''0'', False)
        [(''s'', ObjectCol [None, Some ''a'']), (''x'', FloatCol [None, None])]) = Some IndexError"
  using mode_fill_all_null_raises[of "''x''" "FloatCol [None, None]"
      "[(''s'', ObjectCol [None, Some ''a'']), (''x'', FloatCol [None, None])]" "\<lambda>s. None" "(''0'', False)"]
  by (simp add: is_numeric_def)

text \<open>
  Claim C2, as the code has it. A custom fill value that \<open>float\<close> cannot parse makes the
  stage raise ValueError at the first numeric column. By then every column before it,
  none of them numeric, has had its nulls replaced by the text; the first numeric column
  and all columns after it are as they were. The stage is not atomic, and the exception
  is Python's own, not a structured \<open>InvalidStrategyInput\<close>.
\<close>

theorem custom_fill_unparseable:
  assumes "py_float fill_value = None"
    and "\<forall>p \<in> set pre. \<not> is_numeric (snd p)" and "is_numeric c"
  shows "handle_missing_values py_float (''custom'', True) (fill_value, True) (pre @ (name, c) # post)
     = (Some ValueError, map (\<lambda>(n, x). (n, fillna_str fill_value x)) pre @ (name, c) # post)"
proof -
  from assms(1,3) have "fill_custom py_float fill_value c = Inl ValueError"
    by (simp add: fill_custom_def)
  moreover from assms(2) have
    "\<forall>p \<in> set pre. fill_custom py_float fill_value (snd p) = Inr (fillna_str fill_value (snd p))"
    by (simp add: fill_custom_object)
  ultimately have "for_columns (fill_custom py_float fill_value) (pre @ (name, c) # post)
     = (Some ValueError, map (\<lambda>(n, x). (n, fillna_str fill_value x)) pre @ (name, c) # post)"
    by (rule for_columns_raises[rotated])
  then show ?thesis by (simp add: handle_missing_values_def)
qed

theorem custom_fill_unparseable_witness:
  "handle_missing_values (\<lambda>s. if s = ''7'' then Some (Some 7) else None) (''custom'', True) (''abc'', True)
     ([(''s'', ObjectCol [None, Some ''a''])] @ (''x'', FloatCol [None, Some 1]) # [(''t'', ObjectCol [None, None])])
   = (Some ValueError,
      [(''s'', ObjectCol [Some ''abc'', Some ''a'']), (''x'', FloatCol [None, Some 1]), (''t'', ObjectCol [None, None])])"
  using custom_fill_unparseable[of "\<lambda>s. if s = ''7'' then Some (Some 7) else None" "''abc''"
      "[(''s'', ObjectCol [None, Some ''a''])]" "FloatCol [None, Some 1]" "''x''" "[(''t'', ObjectCol [None, None])]"]
  by (simp add: is_numeric_def)

text \<open>
  The claim as stated fails: with a text column before the numeric one and the fill value
  \<open>abc\<close>, the stage raises and the text column has been filled all the same.
\<close>

theorem custom_fill_not_atomic:
  "handle_missing_values (\<lambda>s. None) (''custom'', True) (''abc'', True)
     [(''s'', ObjectCol [None]), (''x'', FloatCol [None])]
   = (Some ValueError, [(''s'', ObjectCol [Some ''abc'']), (''x'', FloatCol [None])])
   \<and> [(''s'', ObjectCol [Some ''abc'']), (''x'', FloatCol [None])]
     \<noteq> [(''s'', ObjectCol [None]), (''x'', FloatCol [None])]"
  by (simp add: handle_missing_values_def fill_custom_def is_numeric_def)

subsection \<open>Filling with the mode\<close>

lemma set_dropna: "set (dropna xs) = {x. Some x \<in> set xs}"
  by (induction xs rule: dropna.induct) auto










subsection \<open>Field types\<close>

lemma identify_loop_other:
  "name \<notin> fst ` set data \<Longrightarrow> identify_loop field_types data name = field_types name"
  by (induction data arbitrary: field_types) (auto split: option.splits)

lemma identify_loop_entry:
  "distinct (map fst data) \<Longrightarrow> (name, c) \<in> set data \<Longrightarrow>
   identify_loop field_types data name =
     (case field_type (dtype_of c) (unique_values_of c) of
        Some t \<Rightarrow> Some t | None \<Rightarrow> field_types name)"
proof (induction data arbitrary: field_types)
  case Nil
  then show ?case by simp
next
  case (Cons p data)
  obtain n0 c0 where p: "p = (n0, c0)" by (cases p)
  show ?case
  proof (cases "(name, c) = p")
    case True
    with Cons.prems p have "name \<notin> fst ` set data" by auto
    with True p show ?thesis
      by (auto simp: identify_loop_other split: option.splits)
  next
    case False
    with Cons.prems have in_rest: "(name, c) \<in> set data" and d: "distinct (map fst data)" by auto
    from Cons.prems(1) in_rest p have "n0 \<noteq> name" by force
    with Cons.IH[OF d in_rest] p show ?thesis
      by (auto split: option.splits)
  qed
qed

lemma nunique_card: "nunique xs = card {x. Some x \<in> set xs}"
  by (simp add: nunique_def length_remdups_card_conv set_dropna)

text \<open>
  Claim C7, as the code has it. A column of dtype \<open>object\<close> is labelled \<open>categorical\<close>
  exactly when it has at most 10 distinct non-null values, and \<open>string\<close> otherwise. A
  column with no row has no distinct value, so it is \<open>categorical\<close> too.
\<close>

theorem object_column_field_type:
  assumes "distinct (map fst data)" and "(name, ObjectCol xs) \<in> set data"
  shows "identify_field_types data name
       = Some (if card {x. Some x \<in> set xs} \<le> 10 then ''categorical'' else ''string'')
     \<and> (xs = [] \<longrightarrow> identify_field_types data name = Some ''categorical'')"
proof -
  have a: "identify_field_types data name
       = Some (if card {x. Some x \<in> set xs} \<le> 10 then ''categorical'' else ''string'')"
    using identify_loop_entry[OF assms, of Map.empty]
    by (simp add: identify_field_types_def field_type_def nunique_card)
  then show ?thesis by simp
qed

theorem object_column_field_type_witness:
  "distinct (map fst [(''n'', IntCol [1, 2]), (''c'', ObjectCol [Some ''u'', None])])
   \<and> (''c'', ObjectCol [Some ''u'', None]) \<in> set [(''n'', IntCol [1, 2]), (''c'', ObjectCol [Some ''u'', None])]
   \<and> identify_field_types [(''n'', IntCol [1, 2]), (''c'', ObjectCol [Some ''u'', None])] ''c''
      = Some ''categorical''"
  using object_column_field_type[of "[(''n'', IntCol [1, 2]), (''c'', ObjectCol [Some ''u'', None])]"
      "''c''" "[Some ''u'', None]"]
  by (simp add: identify_field_types_def field_type_def nunique_def)

text \<open>
  The claim as stated fails on a text column with zero rows: the label is \<open>categorical\<close>,
  not \<open>string\<close>.
\<close>

theorem zero_rows_is_categorical:
  "identify_field_types [(''c'', ObjectCol [])] ''c'' = Some ''categorical''
   \<and> identify_field_types [(''c'', ObjectCol [])] ''c'' \<noteq> Some ''string''"
  by (simp add: identify_field_types_def field_type_def nunique_def)

subsection \<open>Filling with the mean\<close>

lemma float_values_fillna:
  "is_numeric c \<Longrightarrow> float_values (fillna v c) = map (fill_cell v) (float_values c)"
  by (cases c) (simp_all add: is_numeric_def comp_def)

lemma col_length_fillna: "col_length (fillna v c) = col_length c"
  by (cases c) simp_all

lemma col_length_float_values: "is_numeric c \<Longrightarrow> length (float_values c) = col_length c"
  by (cases c) (simp_all add: is_numeric_def)

lemma fill_cell_None: "fill_cell None x = x"
  by (cases x) simp_all

lemma fillna_None: "fillna None c = c"
  by (cases c) (simp_all add: fill_cell_None map_idI)

lemma fill_cell_keeps: "x \<noteq> None \<Longrightarrow> fill_cell v x = x"
  by (cases x) simp_all

lemma fill_cell_Some: "fill_cell (Some m) x \<noteq> None"
  by (cases x) simp_all

lemma fill_cell_no_null: "None \<notin> set (map (fill_cell (Some m)) xs)"
  by (auto simp: fill_cell_Some dest: sym)

lemma mean_None_iff: "mean xs = None \<longleftrightarrow> dropna xs = []"
  by (simp add: mean_def Let_def)

lemma fill_statistic_mean:
  "fill_statistic ''mean'' c = Inr (if is_numeric c then fillna (mean (float_values c)) c else c)"
  by (simp add: fill_statistic_def)

lemma fill_statistic_object: "\<not> is_numeric c \<Longrightarrow> fill_statistic method c = Inr c"
  by (simp add: fill_statistic_def)

lemma handle_missing_values_mean:
  "handle_missing_values py_float (''mean'', True) txt data
     = (None, map (\<lambda>(name, c). (name, if is_numeric c then fillna (mean (float_values c)) c else c)) data)"
  by (simp add: handle_missing_values_def for_columns_total[OF fill_statistic_mean])

text \<open>
  Claim C6, as the code has it. The \<open>mean\<close> stage never raises and removes no row:
  every column keeps its name, position and length. In a numeric column every cell that
  held a value keeps it, and when the column has at least one value no null is left.
  A numeric column whose cells are all null stays as it is: its mean is NaN, and
  filling with NaN fills nothing. A column that is not numeric is left untouched, under
  \<open>mean\<close> as under \<open>median\<close> and \<open>mode\<close> (under every method but \<open>custom\<close>).
\<close>

theorem mean_fill:
  assumes "i < length data" and "data ! i = (name, c)"
  shows "\<exists>filled c'. handle_missing_values py_float (''mean'', True) txt data = (None, filled)
     \<and> length filled = length data
     \<and> filled ! i = (name, c')
     \<and> col_length c' = col_length c
     \<and> (\<forall>j < col_length c. float_values c ! j \<noteq> None \<longrightarrow> float_values c' ! j = float_values c ! j)
     \<and> (is_numeric c \<and> dropna (float_values c) \<noteq> [] \<longrightarrow> None \<notin> set (float_values c'))
     \<and> (is_numeric c \<and> dropna (float_values c) = [] \<longrightarrow> c' = c)
     \<and> (\<not> is_numeric c \<longrightarrow> c' = c \<and>
          (\<forall>method ok. method \<noteq> ''custom'' \<longrightarrow>
             snd (handle_missing_values py_float (method, ok) txt data) ! i = (name, c)))"
proof -
  let ?f = "\<lambda>c. if is_numeric c then fillna (mean (float_values c)) c else c"
  let ?filled = "map (\<lambda>(name, c). (name, ?f c)) data"
  have run: "handle_missing_values py_float (''mean'', True) txt data = (None, ?filled)"
    by (rule handle_missing_values_mean)
  have at_i: "?filled ! i = (name, ?f c)"
    using assms by simp
  have len: "col_length (?f c) = col_length c"
    by (simp add: col_length_fillna)
  have kept: "\<forall>j < col_length c. float_values c ! j \<noteq> None \<longrightarrow> float_values (?f c) ! j = float_values c ! j"
    by (auto simp: float_values_fillna col_length_float_values fill_cell_keeps)
  have no_null: "is_numeric c \<and> dropna (float_values c) \<noteq> [] \<longrightarrow> None \<notin> set (float_values (?f c))"
  proof
    assume a: "is_numeric c \<and> dropna (float_values c) \<noteq> []"
    then obtain m where "mean (float_values c) = Some m"
      using mean_None_iff[of "float_values c"] by (cases "mean (float_values c)") auto
    with a show "None \<notin> set (float_values (?f c))"
      using fill_cell_no_null[of m "float_values c"] by (simp add: float_values_fillna)
  qed
  have all_null: "is_numeric c \<and> dropna (float_values c) = [] \<longrightarrow> ?f c = c"
    by (auto simp: mean_None_iff[symmetric] fillna_None)
  have untouched: "\<not> is_numeric c \<longrightarrow> ?f c = c \<and>
          (\<forall>method ok. method \<noteq> ''custom'' \<longrightarrow>
             snd (handle_missing_values py_float (method, ok) txt data) ! i = (name, c))"
  proof (intro impI conjI allI)
    fix strategy :: string and ok :: bool
    assume nn: "\<not> is_numeric c" and m: "strategy \<noteq> ''custom''"
    show "snd (handle_missing_values py_float (strategy, ok) txt data) ! i = (name, c)"
    proof (cases ok)
      case True
      with m have "handle_missing_values py_float (strategy, ok) txt data
          = for_columns (fill_statistic strategy) data"
        by (simp add: handle_missing_values_def)
      moreover have "fill_statistic strategy c = Inr c"
        using nn by (rule fill_statistic_object)
      then have "snd (for_columns (fill_statistic strategy) data) ! i = (name, c)"
        by (rule for_columns_fixed[OF assms])
      ultimately show ?thesis by simp
    next
      case False
      with assms show ?thesis by (simp add: handle_missing_values_def)
    qed
  qed simp
  from run at_i len kept no_null all_null untouched show ?thesis
    by (intro exI[of _ ?filled] exI[of _ "?f c"]) simp
qed

theorem mean_fill_witness:
  "(0::nat) < length [(''age'', FloatCol [Some 10, Some 20, None, Some 1000]),
                      (''city'', ObjectCol [Some ''a'', None, None, Some ''b''])]
   \<and> [(''age'', FloatCol [Some 10, Some 20, None, Some 1000]),
       (''city'', ObjectCol [Some ''a'', None, None, Some ''b''])] ! 0
      = (''age'', FloatCol [Some 10, Some 20, None, Some 1000])
   \<and> handle_missing_values (\<lambda>s. None) (''mean'', True) (''0'', False)
        [(''age'', FloatCol [Some 10, Some 20, None, Some 1000]),
         (''city'', ObjectCol [Some ''a'', None, None, Some ''b''])]
      = (None, [(''age'', FloatCol [Some 10, Some 20, Some (1030 / 3), Some 1000]),
                (''city'', ObjectCol [Some ''a'', None, None, Some ''b''])])"
  using mean_fill[of 0 "[(''age'', FloatCol [Some 10, Some 20, None, Some 1000]),
         (''city'', ObjectCol [Some ''a'', None, None, Some ''b''])]" "''age''"
         "FloatCol [Some 10, Some 20, None, Some 1000]" "\<lambda>s. None" "(''0'', False)"]
  by (simp add: handle_missing_values_mean is_numeric_def mean_def)

text \<open>
  The claim as stated fails on a numeric column whose two cells are both null: after the
  \<open>mean\<close> stage both are still null.
\<close>

theorem mean_fill_all_null_stays_null:
  "handle_missing_values (\<lambda>s. None) (''mean'', True) (''0'', False) [(''x'', FloatCol [None, None])]
     = (None, [(''x'', FloatCol [None, None])])"
  by (simp add: handle_missing_values_mean is_numeric_def mean_def)

subsection \<open>Duplicates\<close>

text \<open>The branch for \<open>all\<close> and the strategy \<open>first\<close> are one and the same computation.\<close>

lemma remove_duplicates_all_is_first:
  "remove_duplicates (''all'', ok) data = remove_duplicates (''first'', ok) data"
  by (simp add: remove_duplicates_def)

text \<open>
  Claim C1, at the specification's own scenario. The strategy \<open>all\<close> calls
  \<open>drop_duplicates\<close> with its default \<open>keep='first'\<close>, so on the rows
  \<open>("a", 1), ("a", 1), ("b", 2)\<close> the first \<open>("a", 1)\<close> survives: the result is
  \<open>("a", 1), ("b", 2)\<close>, not \<open>("b", 2)\<close> alone.
\<close>

theorem remove_duplicates_all_keeps_first:
  "remove_duplicates (''all'', True)
     [(''k'', ObjectCol [Some ''a'', Some ''a'', Some ''b'']), (''v'', IntCol [1, 1, 2])]
   = Inr [(''k'', ObjectCol [Some ''a'', Some ''b'']), (''v'', IntCol [1, 2])]"
  by (simp add: remove_duplicates_def drop_duplicates_def rows_of_def select_rows_def mask_list_def)

text \<open>Removing duplicates twice.\<close>

lemma mask_list_Nil [simp]: "mask_list [] xs = []" "mask_list m [] = []"
  by (simp_all add: mask_list_def)

lemma mask_list_Cons [simp]:
  "mask_list (b # m) (x # xs) = (if b then x # mask_list m xs else mask_list m xs)"
  by (simp add: mask_list_def)

lemma mask_list_map: "mask_list m (map f xs) = map f (mask_list m xs)"
proof (induction m arbitrary: xs)
  case Nil
  then show ?case by simp
next
  case (Cons b m)
  then show ?case by (cases xs) simp_all
qed

lemma mask_list_map2:
  "mask_list m (map2 f xs ys) = map2 f (mask_list m xs) (mask_list m ys)"
proof (induction m arbitrary: xs ys)
  case Nil
  then show ?case by simp
next
  case (Cons b m)
  show ?case
  proof (cases xs)
    case Nil
    then show ?thesis by simp
  next
    case xs: (Cons x xs')
    show ?thesis
    proof (cases ys)
      case Nil
      then show ?thesis by simp
    next
      case (Cons y ys')
      with xs Cons.IH show ?thesis by simp
    qed
  qed
qed

lemma set_mask_list: "set (mask_list m xs) \<subseteq> set xs"
  by (auto simp: mask_list_def dest: set_zip_rightD)

lemma length_mask_list:
  "length xs = length ys \<Longrightarrow> length (mask_list m xs) = length (mask_list m ys)"
proof (induction m arbitrary: xs ys)
  case Nil
  then show ?case by simp
next
  case (Cons b m)
  then show ?case by (cases xs; cases ys) auto
qed

lemma mask_list_all_True: "length xs \<le> n \<Longrightarrow> mask_list (replicate n True) xs = xs"
proof (induction n arbitrary: xs)
  case 0
  then show ?case by simp
next
  case (Suc n)
  then show ?case by (cases xs) simp_all
qed

lemma rows_of_cols_mask:
  "rows_of_cols (map (mask_list m) cs) = mask_list m (rows_of_cols cs)"
proof (induction cs rule: rows_of_cols.induct)
  case 1
  then show ?case by simp
next
  case (2 c)
  then show ?case by (simp add: mask_list_map)
next
  case (3 c c' cs)
  then show ?case by (simp add: mask_list_map2)
qed

lemma length_rows_of_cols:
  "cs \<noteq> [] \<Longrightarrow> \<forall>c \<in> set cs. length c = n \<Longrightarrow> length (rows_of_cols cs) = n"
  by (induction cs rule: rows_of_cols.induct) auto

lemma cells_of_mask_col: "cells_of (mask_col m c) = mask_list m (cells_of c)"
  by (cases c) (simp_all add: mask_list_map)

lemma length_cells_of: "length (cells_of c) = col_length c"
  by (cases c) simp_all

lemma mask_col_all_True: "col_length c \<le> n \<Longrightarrow> mask_col (replicate n True) c = c"
  by (cases c) (simp_all add: mask_list_all_True)

lemma rows_of_select_rows: "rows_of (select_rows m data) = mask_list m (rows_of data)"
proof -
  have "rows_of (select_rows m data)
      = rows_of_cols (map (mask_list m) (map (\<lambda>(name, c). cells_of c) data))"
    unfolding rows_of_def
    by (simp add: select_rows_def cells_of_mask_col split_def comp_def)
  also have "\<dots> = mask_list m (rows_of data)"
    unfolding rows_of_def by (rule rows_of_cols_mask)
  finally show ?thesis .
qed

lemma length_rows_of:
  "data \<noteq> [] \<Longrightarrow> \<forall>p \<in> set data. col_length (snd p) = n \<Longrightarrow> length (rows_of data) = n"
  unfolding rows_of_def
  by (rule length_rows_of_cols) (auto simp: length_cells_of)

text \<open>Selecting the rows a second time, with a mask that keeps every row, changes nothing.\<close>

lemma select_rows_again:
  assumes "\<forall>p \<in> set data. col_length (snd p) = n"
    and "length m' = length (mask_list m (rows_of data))" and "\<forall>b \<in> set m'. b"
  shows "select_rows m' (select_rows m data) = select_rows m data"
proof (cases "data = []")
  case True
  then show ?thesis by (simp add: select_rows_def)
next
  case False
  let ?k = "length (mask_list m (rows_of data))"
  from assms(2,3) have m': "m' = replicate ?k True"
    by (metis (full_types) replicate_length_same)
  have "mask_col m' (mask_col m c) = mask_col m c" if "(name, c) \<in> set data" for name c
  proof -
    from that assms(1) have "col_length c = n" by force
    with length_rows_of[OF False assms(1)] have "length (cells_of c) = length (rows_of data)"
      by (simp add: length_cells_of)
    then have "length (mask_list m (cells_of c)) = ?k"
      by (rule length_mask_list)
    then have "col_length (mask_col m c) \<le> ?k"
      by (simp add: cells_of_mask_col[symmetric] length_cells_of)
    then show ?thesis unfolding m' by (rule mask_col_all_True)
  qed
  then show ?thesis by (auto simp: select_rows_def)
qed

lemma duplicated_first_seen:
  "set seen = set seen' \<Longrightarrow> duplicated_first seen rs = duplicated_first seen' rs"
  by (induction rs arbitrary: seen seen') auto

lemma duplicated_first_kept:
  "\<forall>b \<in> set (duplicated_first seen (mask_list (map Not (duplicated_first seen rs)) rs)). \<not> b"
proof (induction rs arbitrary: seen)
  case Nil
  then show ?case by simp
next
  case (Cons r rs)
  show ?case
  proof (cases "r \<in> set seen")
    case True
    then have "set (r # seen) = set seen" by auto
    then have "duplicated_first (r # seen) xs = duplicated_first seen xs" for xs :: "'a list"
      by (rule duplicated_first_seen)
    with True Cons.IH[of seen] show ?thesis by simp
  next
    case False
    with Cons.IH[of "r # seen"] show ?thesis by simp
  qed
qed

lemma duplicated_last_kept:
  "\<forall>b \<in> set (duplicated_last (mask_list (map Not (duplicated_last rs)) rs)). \<not> b"
proof (induction rs)
  case Nil
  then show ?case by simp
next
  case (Cons r rs)
  show ?case
  proof (cases "r \<in> set rs")
    case True
    with Cons.IH show ?thesis by simp
  next
    case False
    with set_mask_list[of "map Not (duplicated_last rs)" rs]
    have "r \<notin> set (mask_list (map Not (duplicated_last rs)) rs)" by auto
    with False Cons.IH show ?thesis by simp
  qed
qed

lemma length_duplicated_first [simp]: "length (duplicated_first seen rs) = length rs"
  by (induction rs arbitrary: seen) auto

lemma length_duplicated_last [simp]: "length (duplicated_last rs) = length rs"
  by (induction rs) auto

lemma drop_duplicates_idempotent:
  assumes "\<forall>p \<in> set data. col_length (snd p) = n" and "keep = ''first'' \<or> keep = ''last''"
  shows "\<exists>once. drop_duplicates keep data = Inr once \<and> drop_duplicates keep once = Inr once"
proof -
  from assms(2) show ?thesis
  proof
    assume k: "keep = ''first''"
    let ?m = "map Not (duplicated_first [] (rows_of data))"
    let ?once = "select_rows ?m data"
    let ?m' = "map Not (duplicated_first [] (rows_of ?once))"
    have "select_rows ?m' ?once = ?once"
      using assms(1)
    proof (rule select_rows_again)
      show "length ?m' = length (mask_list ?m (rows_of data))"
        by (simp add: rows_of_select_rows)
      show "\<forall>b \<in> set ?m'. b"
        using duplicated_first_kept[of "[]" "rows_of data"]
        by (simp add: rows_of_select_rows)
    qed
    with k show ?thesis by (simp add: drop_duplicates_def)
  next
    assume k: "keep = ''last''"
    let ?m = "map Not (duplicated_last (rows_of data))"
    let ?once = "select_rows ?m data"
    let ?m' = "map Not (duplicated_last (rows_of ?once))"
    have "select_rows ?m' ?once = ?once"
      using assms(1)
    proof (rule select_rows_again)
      show "length ?m' = length (mask_list ?m (rows_of data))"
        by (simp add: rows_of_select_rows)
      show "\<forall>b \<in> set ?m'. b"
        using duplicated_last_kept[of "rows_of data"]
        by (simp add: rows_of_select_rows)
    qed
    with k show ?thesis by (simp add: drop_duplicates_def)
  qed
qed

text \<open>
  Claim C8. On a DataFrame (all columns of one length \<open>n\<close>), \<open>remove_duplicates\<close> with
  any of the three strategies succeeds, and running it again with the same strategy on
  its result gives that result back. The same holds when the dialog is cancelled, which
  changes nothing either time.
\<close>

theorem remove_duplicates_idempotent:
  assumes "strat = ''first'' \<or> strat = ''last'' \<or> strat = ''all''"
    and "\<forall>p \<in> set data. col_length (snd p) = n"
  shows "\<exists>once. remove_duplicates (strat, ok) data = Inr once
            \<and> remove_duplicates (strat, ok) once = Inr once"
proof (cases ok)
  case False
  then show ?thesis by (simp add: remove_duplicates_def)
next
  case True
  show ?thesis
  proof (cases "strat = ''all''")
    case all: True
    from drop_duplicates_idempotent[OF assms(2), of "''first''"] True all
    show ?thesis by (simp add: remove_duplicates_def)
  next
    case False
    with assms(1) have "strat = ''first'' \<or> strat = ''last''" by simp
    from drop_duplicates_idempotent[OF assms(2) this] True False
    show ?thesis by (simp add: remove_duplicates_def)
  qed
qed

theorem remove_duplicates_idempotent_witness:
  "col_length (ObjectCol [Some ''a'', Some ''a'', Some ''b'']) = 3 \<and> col_length (IntCol [1, 1, 2]) = 3
   \<and> remove_duplicates (''last'', True)
        [(''k'', ObjectCol [Some ''a'', Some ''a'', Some ''b'']), (''v'', IntCol [1, 1, 2])]
      = Inr [(''k'', ObjectCol [Some ''a'', Some ''b'']), (''v'', IntCol [1, 2])]
   \<and> remove_duplicates (''last'', True)
        [(''k'', ObjectCol [Some ''a'', Some ''b'']), (''v'', IntCol [1, 2])]
      = Inr [(''k'', ObjectCol [Some ''a'', Some ''b'']), (''v'', IntCol [1, 2])]"
  using remove_duplicates_idempotent[of "''last''"
      "[(''k'', ObjectCol [Some ''a'', Some ''a'', Some ''b'']), (''v'', IntCol [1, 1, 2])]" 3 True]
  by (simp add: remove_duplicates_def drop_duplicates_def rows_of_def select_rows_def)

subsection \<open>Outliers\<close>















subsection \<open>Statistics\<close>

lemma value_counts_Nil: "dropna xs = [] \<Longrightarrow> value_counts xs = []"
  by (simp add: value_counts_def)

lemma length_value_counts: "length (value_counts xs) = card (set (dropna xs))"
proof -
  have "length (remdups (rev (dropna xs))) = card (set (rev (dropna xs)))"
    by (rule length_remdups_card_conv)
  then show ?thesis by (simp add: value_counts_def Let_def)
qed

lemma value_counts_top:
  assumes "dropna xs \<noteq> []"
  shows "\<exists>t rest. value_counts xs = (t, count_list (dropna xs) t) # rest
     \<and> (\<forall>x. count_list (dropna xs) x \<le> count_list (dropna xs) t)"
proof -
  let ?v = "dropna xs"
  let ?key = "\<lambda>p :: 'a \<times> nat. - int (snd p)"
  let ?ps = "map (\<lambda>x. (x, count_list ?v x)) (rev (remdups (rev ?v)))"
  have vc: "value_counts xs = sort_key ?key ?ps"
    by (simp add: value_counts_def Let_def)
  have set_vc: "set (value_counts xs) = (\<lambda>x. (x, count_list ?v x)) ` set ?v"
    unfolding vc by simp
  from assms have "length (value_counts xs) \<noteq> 0"
    unfolding vc by simp
  then obtain p rest where pr: "value_counts xs = p # rest"
    by (cases "value_counts xs") auto
  with set_vc obtain t where t: "p = (t, count_list ?v t)" by auto
  have "sorted (map ?key (value_counts xs))"
    unfolding vc by (rule sorted_sort_key)
  with pr have le: "\<forall>q \<in> set rest. ?key p \<le> ?key q" by simp
  have "count_list ?v x \<le> count_list ?v t" for x
  proof (cases "x \<in> set ?v")
    case False
    then show ?thesis by (simp add: count_notin)
  next
    case True
    then have "(x, count_list ?v x) \<in> set (value_counts xs)"
      unfolding set_vc by blast
    with pr have "(x, count_list ?v x) = p \<or> (x, count_list ?v x) \<in> set rest" by auto
    then show ?thesis
    proof
      assume "(x, count_list ?v x) = p"
      with t show ?thesis by simp
    next
      assume "(x, count_list ?v x) \<in> set rest"
      with le have "?key p \<le> ?key (x, count_list ?v x)" by blast
      with t show ?thesis by simp
    qed
  qed
  with pr t show ?thesis by blast
qed

lemma describe_categorical_1d_summary:
  "\<exists>top_value freq. describe_categorical_1d xs
       = Categorical_summary (length (dropna xs)) (card (set (dropna xs))) top_value freq
     \<and> (dropna xs = [] \<longrightarrow> top_value = None \<and> freq = None)
     \<and> (dropna xs \<noteq> [] \<longrightarrow> (\<exists>t. top_value = Some t \<and> freq = Some (count_list (dropna xs) t)
           \<and> (\<forall>x. count_list (dropna xs) x \<le> count_list (dropna xs) t)))"
proof (cases "dropna xs = []")
  case True
  then show ?thesis
    by (simp add: describe_categorical_1d_def value_counts_Nil count_def)
next
  case False
  from value_counts_top[OF False] obtain t rest where
    vc: "value_counts xs = (t, count_list (dropna xs) t) # rest"
    and top: "\<forall>x. count_list (dropna xs) x \<le> count_list (dropna xs) t"
    by blast
  have "length ((t, count_list (dropna xs) t) # rest) = card (set (dropna xs))"
    using length_value_counts[of xs] vc by simp
  with vc have "describe_categorical_1d xs
      = Categorical_summary (length (dropna xs)) (card (set (dropna xs))) (Some t)
          (Some (count_list (dropna xs) t))"
    by (simp add: describe_categorical_1d_def count_def)
  with False top show ?thesis by blast
qed

lemma describe_1d_numeric: "is_numeric c \<Longrightarrow> describe_1d c = describe_numeric_1d (float_values c)"
  by (cases c) (simp_all add: is_numeric_def)

lemma describe_with_numeric:
  assumes "\<exists>p \<in> set data. is_numeric (snd p)"
  shows "perform_statistical_analysis data
     = Inr (map (\<lambda>(name, c). (name, describe_1d c)) (filter (\<lambda>(name, c). is_numeric c) data))"
proof -
  from assms have "data \<noteq> []" by auto
  moreover from assms have "filter (\<lambda>(name, c). is_numeric c) data \<noteq> []"
    by (auto simp: filter_empty_conv)
  ultimately show ?thesis
    by (simp add: perform_statistical_analysis_def describe_def Let_def)
qed

lemma describe_without_numeric:
  assumes "data \<noteq> []" and "\<not> (\<exists>p \<in> set data. is_numeric (snd p))"
  shows "perform_statistical_analysis data = Inr (map (\<lambda>(name, c). (name, describe_1d c)) data)"
proof -
  from assms(2) have "filter (\<lambda>(name, c). is_numeric c) data = []"
    by (auto simp: filter_empty_conv)
  with assms(1) show ?thesis
    by (simp add: perform_statistical_analysis_def describe_def Let_def)
qed

text \<open>
  Claim C3, as the code has it. \<open>describe()\<close> is called with no argument. When the
  DataFrame has a numeric column, the table has an entry for exactly the numeric
  columns, in column order, each with count, mean, sample standard deviation, min, the
  25%, 50% and 75% quantiles and max; a column of text gets no entry. Only when there
  is no numeric column at all does every column get an entry, and then it is count,
  number of distinct values, a most frequent value and its frequency: one value, not a
  frequency table.
\<close>

theorem summary_covers_numeric_columns:
  assumes "(name, c) \<in> set data"
  shows "\<exists>stats. perform_statistical_analysis data = Inr stats
     \<and> ((\<exists>p \<in> set data. is_numeric (snd p)) \<longrightarrow>
          map fst stats = map fst (filter (\<lambda>(name, c). is_numeric c) data))
     \<and> (is_numeric c \<longrightarrow>
          (name, Numeric_summary (count (float_values c)) (mean (float_values c)) (std (float_values c))
             (min_s (float_values c)) (quantile (1/4) (float_values c)) (quantile (1/2) (float_values c))
             (quantile (3/4) (float_values c)) (max_s (float_values c))) \<in> set stats)
     \<and> (\<not> (\<exists>p \<in> set data. is_numeric (snd p)) \<longrightarrow>
          map fst stats = map fst data
          \<and> (\<forall>xs. c = ObjectCol xs \<longrightarrow> (\<exists>top_value freq.
                (name, Categorical_summary (length (dropna xs)) (card (set (dropna xs))) top_value freq)
                  \<in> set stats
                \<and> (dropna xs = [] \<longrightarrow> top_value = None \<and> freq = None)
                \<and> (dropna xs \<noteq> [] \<longrightarrow> (\<exists>t. top_value = Some t
                      \<and> freq = Some (count_list (dropna xs) t)
                      \<and> (\<forall>x. count_list (dropna xs) x \<le> count_list (dropna xs) t))))))"
proof (cases "\<exists>p \<in> set data. is_numeric (snd p)")
  case True
  let ?stats = "map (\<lambda>(name, c). (name, describe_1d c)) (filter (\<lambda>(name, c). is_numeric c) data)"
  have run: "perform_statistical_analysis data = Inr ?stats"
    using True by (rule describe_with_numeric)
  have names: "map fst ?stats = map fst (filter (\<lambda>(name, c). is_numeric c) data)"
    by (simp add: split_def comp_def)
  have entry: "(name, describe_numeric_1d (float_values c)) \<in> set ?stats" if "is_numeric c"
  proof -
    from assms that have "(name, c) \<in> set (filter (\<lambda>(name, c). is_numeric c) data)" by simp
    then have "(name, describe_1d c) \<in> set ?stats" by force
    with that show ?thesis by (simp add: describe_1d_numeric)
  qed
  from run names entry True show ?thesis
    by (intro exI[of _ ?stats]) (simp add: describe_numeric_1d_def)
next
  case False
  let ?stats = "map (\<lambda>(name, c). (name, describe_1d c)) data"
  from assms have "data \<noteq> []" by auto
  then have run: "perform_statistical_analysis data = Inr ?stats"
    using False by (rule describe_without_numeric)
  have names: "map fst ?stats = map fst data"
    by (simp add: split_def comp_def)
  from assms False have nn: "\<not> is_numeric c" by force
  have entry: "\<exists>top_value freq.
        (name, Categorical_summary (length (dropna xs)) (card (set (dropna xs))) top_value freq)
          \<in> set ?stats
        \<and> (dropna xs = [] \<longrightarrow> top_value = None \<and> freq = None)
        \<and> (dropna xs \<noteq> [] \<longrightarrow> (\<exists>t. top_value = Some t
              \<and> freq = Some (count_list (dropna xs) t)
              \<and> (\<forall>x. count_list (dropna xs) x \<le> count_list (dropna xs) t)))"
    if c: "c = ObjectCol xs" for xs
  proof -
    from assms have "(name, describe_1d c) \<in> set ?stats" by force
    with c have "(name, describe_categorical_1d xs) \<in> set ?stats" by simp
    with describe_categorical_1d_summary[of xs] show ?thesis by metis
  qed
  from run names entry nn False show ?thesis
    by (intro exI[of _ ?stats]) simp
qed

theorem summary_covers_numeric_columns_witness:
  "(''n'', IntCol [1, 2, 3]) \<in> set [(''n'', IntCol [1, 2, 3]), (''s'', ObjectCol [Some ''x'', Some ''y'', Some ''x''])]
   \<and> is_numeric (IntCol [1, 2, 3])
   \<and> perform_statistical_analysis [(''n'', IntCol [1, 2, 3]), (''s'', ObjectCol [Some ''x'', Some ''y'', Some ''x''])]
      = Inr [(''n'', Numeric_summary 3 (Some 2) (Some 1) (Some 1) (Some (3/2)) (Some 2) (Some (5/2)) (Some 3))]"
  using summary_covers_numeric_columns[of "''n''" "IntCol [1, 2, 3]"
      "[(''n'', IntCol [1, 2, 3]), (''s'', ObjectCol [Some ''x'', Some ''y'', Some ''x''])]"]
  by (simp add: perform_statistical_analysis_def describe_def is_numeric_def describe_numeric_1d_def
     count_def mean_def std_def sum_sq_dev_def min_s_def max_s_def quantile_def Let_def)

text \<open>
  The claim as stated fails: beside a numeric column, the text column \<open>s\<close> gets no entry;
  alone, it is summarized by \<open>count = 3, unique = 2, top = x, freq = 2\<close>, which says
  nothing about how often \<open>y\<close> occurs.
\<close>

theorem text_column_gets_no_entry:
  "perform_statistical_analysis
     [(''n'', IntCol [1, 2, 3]), (''s'', ObjectCol [Some ''x'', Some ''y'', Some ''x''])]
   = Inr [(''n'', Numeric_summary 3 (Some 2) (Some 1) (Some 1) (Some (3/2)) (Some 2) (Some (5/2)) (Some 3))]
   \<and> perform_statistical_analysis [(''s'', ObjectCol [Some ''x'', Some ''y'', Some ''x'', None])]
   = Inr [(''s'', Categorical_summary 3 2 (Some ''x'') (Some 2))]"
  by (simp add: perform_statistical_analysis_def describe_def is_numeric_def describe_numeric_1d_def
     describe_categorical_1d_def value_counts_def
     count_def mean_def std_def sum_sq_dev_def min_s_def max_s_def quantile_def Let_def)

end
